theory Spec2Isabelle
  imports Main "HOL-Library.Word" "HOL-Library.FSet"
begin

unbundle bit_operations_syntax

section \<open>Common types\<close>

type_synonym byte = "8 word"

text \<open>
  Modelled from the spec: \<^verbatim>\<open>peer_protocol.Integer\<close> is declared in package
  \<^verbatim>\<open>peer_protocol\<close>, outside \<^verbatim>\<open>misc.go\<close>. The spec has chunk offsets and lengths as
  unsigned integers; the integers of the peer wire protocol are four bytes wide, so the
  type is taken as a 32-bit word: \<open>+\<close>, \<open>-\<close> and \<open>*\<close> wrap, \<open>div\<close> and \<open><\<close> are
  unsigned.
\<close>

type_synonym Integer = "32 word"

text \<open>
  A Go call either returns or panics. \<open>Panic\<close> carries the panic's message; a run-time
  index panic carries \<open>''index out of range''\<close>.
\<close>

datatype 'a result = Panic string | Returns 'a

fun aborts :: "'a result \<Rightarrow> bool" where
  "aborts (Panic _) = True"
| "aborts (Returns _) = False"

text \<open>Indexing a slice with a Go \<^verbatim>\<open>int\<close>: out of range is a run-time panic.\<close>

definition index :: "'a list \<Rightarrow> int \<Rightarrow> 'a result" where
  "index xs i =
     (if 0 \<le> i \<and> i < int (length xs) then Returns (xs ! nat i)
      else Panic ''index out of range'')"

text \<open>
  The builtin \<^verbatim>\<open>copy(dst, src)\<close>: the first \<open>min (len dst) (len src)\<close> bytes of
  \<open>src\<close> overwrite the start of \<open>dst\<close>; the number of bytes copied is returned. The model
  returns the new contents of \<open>dst\<close> with it.
\<close>

definition go_copy :: "'a list \<Rightarrow> 'a list \<Rightarrow> 'a list \<times> nat" where
  "go_copy dst src =
     (let n = min (length dst) (length src) in (take n src @ drop n dst, n))"

section \<open>Hash sums (misc.go)\<close>

text \<open>\<^verbatim>\<open>type InfoHash [20]byte\<close> and \<^verbatim>\<open>type pieceSum [20]byte\<close>: byte sequences of length 20.\<close>

type_synonym InfoHash = "byte list"
type_synonym pieceSum = "byte list"

text \<open>
  \<^verbatim>\<open>copyHashSum(dst, src)\<close> writes into \<open>dst\<close>; the model returns the new \<open>dst\<close>.
  The disjunction short-circuits, as \<^verbatim>\<open>||\<close> does: both sides lead to the same panic.
\<close>

definition copyHashSum :: "byte list \<Rightarrow> byte list \<Rightarrow> byte list result" where
  "copyHashSum dst src =
     (if length dst \<noteq> length src \<or> snd (go_copy dst src) \<noteq> length dst
      then Panic ''hash sum sizes differ''
      else Returns (fst (go_copy dst src)))"

text \<open>The named result \<open>ih\<close> starts as the zero value of \<^verbatim>\<open>[20]byte\<close>.\<close>

definition BytesInfoHash :: "byte list \<Rightarrow> InfoHash result" where
  "BytesInfoHash b =
     (let ih = replicate 20 0
      in if length b \<noteq> length ih \<or> snd (go_copy ih b) \<noteq> length ih
         then Panic ''bad infohash bytes''
         else Returns (fst (go_copy ih b)))"

section \<open>Pieces and chunks (misc.go)\<close>

definition chunkSize :: Integer where
  "chunkSize = 0x4000"

record chunkSpec =
  Begin :: Integer
  Length :: Integer

text \<open>
  \<^verbatim>\<open>PendingChunkSpecs map[chunkSpec]struct{}\<close> is a finite set of chunk specs; \<^verbatim>\<open>len\<close> of
  the map is its cardinality (0 for the nil map).
\<close>

record piece =
  Hash :: pieceSum
  PendingChunkSpecs :: "chunkSpec fset"
  Hashing :: bool
  QueuedForHash :: bool
  EverHashed :: bool

definition Complete :: "piece \<Rightarrow> bool" where
  "Complete p = (fcard (PendingChunkSpecs p) = 0 \<and> EverHashed p)"

definition lastChunkSpec :: "Integer \<Rightarrow> chunkSpec" where
  "lastChunkSpec pieceLength =
     (let b = (pieceLength - 1) div chunkSize * chunkSize
      in \<lparr>Begin = b, Length = pieceLength - b\<rparr>)"

record request =
  Index :: Integer
  chunk :: chunkSpec

definition newRequest :: "Integer \<Rightarrow> Integer \<Rightarrow> Integer \<Rightarrow> request" where
  "newRequest idx begin len = \<lparr>Index = idx, chunk = \<lparr>Begin = begin, Length = len\<rparr>\<rparr>"

record pieceByBytesPendingSlice =
  Pending :: "Integer list"
  Indices :: "Integer list"

definition Len :: "pieceByBytesPendingSlice \<Rightarrow> int" where
  "Len pcs = int (length (Indices pcs))"

text \<open>
  \<^verbatim>\<open>me.Pending[me.Indices[i]] < me.Pending[me.Indices[j]]\<close>: the left operand is read
  first; each of the four slice reads panics out of range.
\<close>

definition Less :: "pieceByBytesPendingSlice \<Rightarrow> int \<Rightarrow> int \<Rightarrow> bool result" where
  "Less me i j =
     (case index (Indices me) i of
        Panic s \<Rightarrow> Panic s
      | Returns a \<Rightarrow>
          (case index (Pending me) (uint a) of
             Panic s \<Rightarrow> Panic s
           | Returns pa \<Rightarrow>
               (case index (Indices me) j of
                  Panic s \<Rightarrow> Panic s
                | Returns b \<Rightarrow>
                    (case index (Pending me) (uint b) of
                       Panic s \<Rightarrow> Panic s
                     | Returns pb \<Rightarrow> Returns (pa < pb)))))"

text \<open>\<^verbatim>\<open>Swap\<close> exchanges two entries of \<open>Indices\<close> in place; both reads come first.\<close>

definition Swap :: "pieceByBytesPendingSlice \<Rightarrow> int \<Rightarrow> int \<Rightarrow> pieceByBytesPendingSlice result" where
  "Swap me i j =
     (case index (Indices me) j of
        Panic s \<Rightarrow> Panic s
      | Returns b \<Rightarrow>
          (case index (Indices me) i of
             Panic s \<Rightarrow> Panic s
           | Returns a \<Rightarrow>
               Returns (me\<lparr>Indices := (Indices me)[nat i := b, nat j := a]\<rparr>)))"

section \<open>Tracker wire codec\<close>

text \<open>
  Modelled from the spec: the codec of the tracker package (its \<^verbatim>\<open>read\<close> and \<^verbatim>\<open>write\<close>
  over \<^verbatim>\<open>encoding/binary\<close>, the wire structures and \<^verbatim>\<open>util.CompactPeers\<close>) is not among
  the sources at hand; only its tests are. The structures are fixed-width, big-endian, with
  the fields in wire order; decoding fails with \<open>Truncated\<close> when fewer bytes are
  available than the structure requires, and a compact peer list whose length is not a
  multiple of 6 is \<open>MalformedPeerList\<close>.
\<close>

datatype codec_error = Truncated | MalformedPeerList

text \<open>Modelled from the spec: an integer of \<open>n\<close> bytes in network byte order.\<close>

fun be_bytes :: "nat \<Rightarrow> 'a::len word \<Rightarrow> byte list" where
  "be_bytes 0 w = []"
| "be_bytes (Suc n) w = be_bytes n (drop_bit 8 w) @ [ucast w]"

definition be_word :: "byte list \<Rightarrow> 'a::len word" where
  "be_word bs = foldl (\<lambda>acc b. push_bit 8 acc OR ucast b) 0 bs"

text \<open>
  Modelled from the spec: a decoder consumes a prefix of the buffer and returns the value
  with the bytes left over, or fails; the bytes consumed are the difference in length.
\<close>

definition read_bytes :: "nat \<Rightarrow> byte list \<Rightarrow> codec_error + byte list \<times> byte list" where
  "read_bytes n bs = (if length bs < n then Inl Truncated else Inr (take n bs, drop n bs))"

definition read_word :: "nat \<Rightarrow> byte list \<Rightarrow> codec_error + 'a::len word \<times> byte list" where
  "read_word n bs = (case read_bytes n bs of Inl e \<Rightarrow> Inl e | Inr (h, t) \<Rightarrow> Inr (be_word h, t))"

definition andThen :: "codec_error + 'a \<times> byte list \<Rightarrow> ('a \<Rightarrow> byte list \<Rightarrow> codec_error + 'b)
    \<Rightarrow> codec_error + 'b" where
  "andThen r f = (case r of Inl e \<Rightarrow> Inl e | Inr (x, rest) \<Rightarrow> f x rest)"

text \<open>
  Modelled from the spec: the request header \<open>{connectionId: 64-bit, action: 32-bit,
  transactionId: 32-bit}\<close>; a connect request is this header with the magic connection id
  and action 0.
\<close>

record RequestHeader =
  ConnectionId :: "64 word"
  Action :: "32 word"
  TransactionId :: "32 word"

definition encode_RequestHeader :: "RequestHeader \<Rightarrow> byte list" where
  "encode_RequestHeader h =
     be_bytes 8 (ConnectionId h) @ be_bytes 4 (Action h) @ be_bytes 4 (TransactionId h)"

definition decode_RequestHeader :: "byte list \<Rightarrow> codec_error + RequestHeader \<times> byte list" where
  "decode_RequestHeader bs =
     andThen (read_word 8 bs) (\<lambda>c r1.
     andThen (read_word 4 r1) (\<lambda>a r2.
     andThen (read_word 4 r2) (\<lambda>t r3.
       Inr (\<lparr>ConnectionId = c, Action = a, TransactionId = t\<rparr>, r3))))"

text \<open>
  Modelled from the spec: the magic connection id of a connect request and the action
  codes connect(0), announce(1), scrape(2), error(3).
\<close>

definition connect_magic :: "64 word" where
  "connect_magic = 0x41727101980"

definition action_connect :: "32 word" where "action_connect = 0"
definition action_announce :: "32 word" where "action_announce = 1"
definition action_scrape :: "32 word" where "action_scrape = 2"
definition action_error :: "32 word" where "action_error = 3"

definition ConnectRequest :: "32 word \<Rightarrow> RequestHeader" where
  "ConnectRequest tid =
     \<lparr>ConnectionId = connect_magic, Action = action_connect, TransactionId = tid\<rparr>"

text \<open>
  Modelled from the spec: the response header \<open>{action: 32-bit, transactionId: 32-bit}\<close>,
  the 8 bytes every response starts with.
\<close>

record ResponseHeader =
  rsp_Action :: "32 word"
  rsp_TransactionId :: "32 word"

definition encode_ResponseHeader :: "ResponseHeader \<Rightarrow> byte list" where
  "encode_ResponseHeader h = be_bytes 4 (rsp_Action h) @ be_bytes 4 (rsp_TransactionId h)"

definition decode_ResponseHeader :: "byte list \<Rightarrow> codec_error + ResponseHeader \<times> byte list" where
  "decode_ResponseHeader bs =
     andThen (read_word 4 bs) (\<lambda>a r1.
     andThen (read_word 4 r1) (\<lambda>t r2.
       Inr (\<lparr>rsp_Action = a, rsp_TransactionId = t\<rparr>, r2)))"

text \<open>
  Modelled from the spec: the connect response \<open>{action, transactionId, connectionId:
  64-bit}\<close>, a response header followed by the connection id.
\<close>

record ConnectionResponse =
  cr_ConnectionId :: "64 word"

definition encode_ConnectionResponse :: "ConnectionResponse \<Rightarrow> byte list" where
  "encode_ConnectionResponse c = be_bytes 8 (cr_ConnectionId c)"

definition decode_ConnectionResponse ::
    "byte list \<Rightarrow> codec_error + ConnectionResponse \<times> byte list" where
  "decode_ConnectionResponse bs =
     andThen (read_word 8 bs) (\<lambda>c r1. Inr (\<lparr>cr_ConnectionId = c\<rparr>, r1))"

definition encode_ConnectResponse :: "ResponseHeader \<times> ConnectionResponse \<Rightarrow> byte list" where
  "encode_ConnectResponse x = encode_ResponseHeader (fst x) @ encode_ConnectionResponse (snd x)"

definition decode_ConnectResponse ::
    "byte list \<Rightarrow> codec_error + (ResponseHeader \<times> ConnectionResponse) \<times> byte list" where
  "decode_ConnectResponse bs =
     andThen (decode_ResponseHeader bs) (\<lambda>h r1.
     andThen (decode_ConnectionResponse r1) (\<lambda>c r2. Inr ((h, c), r2)))"

text \<open>
  Modelled from the spec: the announce request; after the request header come \<open>infoHash:
  20 bytes, peerId: 20 bytes, downloaded, left, uploaded: 64-bit, event, ip, key, numWant:
  32-bit, port: 16-bit\<close>. The two byte arrays are byte lists, of length 20 in a well-formed
  request.
\<close>

record AnnounceRequest =
  InfoHash :: "byte list"
  PeerId :: "byte list"
  Downloaded :: "64 word"
  Left :: "64 word"
  Uploaded :: "64 word"
  Event :: "32 word"
  IPAddress :: "32 word"
  Key :: "32 word"
  NumWant :: "32 word"
  Port :: "16 word"

text \<open>Modelled from the spec: the event enum \<open>{none=0, completed=1, started=2, stopped=3}\<close>.\<close>

definition event_none :: "32 word" where "event_none = 0"
definition event_completed :: "32 word" where "event_completed = 1"
definition event_started :: "32 word" where "event_started = 2"
definition event_stopped :: "32 word" where "event_stopped = 3"

text \<open>Modelled from the spec: the two byte arrays of an announce request hold 20 bytes each.\<close>

definition wf_AnnounceRequest :: "AnnounceRequest \<Rightarrow> bool" where
  "wf_AnnounceRequest a = (length (InfoHash a) = 20 \<and> length (PeerId a) = 20)"

definition encode_AnnounceRequest :: "AnnounceRequest \<Rightarrow> byte list" where
  "encode_AnnounceRequest a =
     InfoHash a @ PeerId a @ be_bytes 8 (Downloaded a) @ be_bytes 8 (Left a)
     @ be_bytes 8 (Uploaded a) @ be_bytes 4 (Event a) @ be_bytes 4 (IPAddress a)
     @ be_bytes 4 (Key a) @ be_bytes 4 (NumWant a) @ be_bytes 2 (Port a)"

definition decode_AnnounceRequest ::
    "byte list \<Rightarrow> codec_error + AnnounceRequest \<times> byte list" where
  "decode_AnnounceRequest bs =
     andThen (read_bytes 20 bs) (\<lambda>ih r1.
     andThen (read_bytes 20 r1) (\<lambda>pid r2.
     andThen (read_word 8 r2) (\<lambda>dl r3.
     andThen (read_word 8 r3) (\<lambda>lf r4.
     andThen (read_word 8 r4) (\<lambda>ul r5.
     andThen (read_word 4 r5) (\<lambda>ev r6.
     andThen (read_word 4 r6) (\<lambda>ip r7.
     andThen (read_word 4 r7) (\<lambda>k r8.
     andThen (read_word 4 r8) (\<lambda>nw r9.
     andThen (read_word 2 r9) (\<lambda>p r10.
       Inr (\<lparr>InfoHash = ih, PeerId = pid, Downloaded = dl, Left = lf, Uploaded = ul,
              Event = ev, IPAddress = ip, Key = k, NumWant = nw, Port = p\<rparr>, r10)))))))))))"

text \<open>
  Modelled from the spec: the announce request on the wire, the request header followed by
  the fields above, 98 bytes in all.
\<close>

definition encode_AnnounceRequestPacket :: "RequestHeader \<times> AnnounceRequest \<Rightarrow> byte list" where
  "encode_AnnounceRequestPacket x = encode_RequestHeader (fst x) @ encode_AnnounceRequest (snd x)"

definition decode_AnnounceRequestPacket ::
    "byte list \<Rightarrow> codec_error + (RequestHeader \<times> AnnounceRequest) \<times> byte list" where
  "decode_AnnounceRequestPacket bs =
     andThen (decode_RequestHeader bs) (\<lambda>h r1.
     andThen (decode_AnnounceRequest r1) (\<lambda>a r2. Inr ((h, a), r2)))"

text \<open>
  Modelled from the spec: the announce response: the response header, then \<open>interval,
  leechers, seeders: 32-bit\<close> (the 12 bytes of \<^verbatim>\<open>AnnounceResponseHeader\<close>), then the compact
  peer entries, each \<open>{ip: 4 bytes, port: 16-bit}\<close>.
\<close>

record AnnounceResponseHeader =
  Interval :: "32 word"
  Leechers :: "32 word"
  Seeders :: "32 word"

definition encode_AnnounceResponseHeader :: "AnnounceResponseHeader \<Rightarrow> byte list" where
  "encode_AnnounceResponseHeader a =
     be_bytes 4 (Interval a) @ be_bytes 4 (Leechers a) @ be_bytes 4 (Seeders a)"

definition decode_AnnounceResponseHeader ::
    "byte list \<Rightarrow> codec_error + AnnounceResponseHeader \<times> byte list" where
  "decode_AnnounceResponseHeader bs =
     andThen (read_word 4 bs) (\<lambda>i r1.
     andThen (read_word 4 r1) (\<lambda>l r2.
     andThen (read_word 4 r2) (\<lambda>s r3.
       Inr (\<lparr>Interval = i, Leechers = l, Seeders = s\<rparr>, r3))))"

text \<open>
  Modelled from the spec: a compact peer \<open>{ip: 4 bytes, port: 16-bit}\<close>; the address is a
  byte list, of length 4 in a well-formed peer.
\<close>

record CompactPeer =
  IP :: "byte list"
  peer_Port :: "16 word"

definition wf_CompactPeer :: "CompactPeer \<Rightarrow> bool" where
  "wf_CompactPeer p = (length (IP p) = 4)"

definition encode_CompactPeer :: "CompactPeer \<Rightarrow> byte list" where
  "encode_CompactPeer p = IP p @ be_bytes 2 (peer_Port p)"

fun encode_CompactPeers :: "CompactPeer list \<Rightarrow> byte list" where
  "encode_CompactPeers [] = []"
| "encode_CompactPeers (p # ps) = encode_CompactPeer p @ encode_CompactPeers ps"

text \<open>
  Modelled from the spec: decoding a compact peer list consumes all remaining bytes, six
  at a time; a remainder that is not a whole entry is \<open>MalformedPeerList\<close>.
\<close>

fun decode_CompactPeers :: "byte list \<Rightarrow> codec_error + CompactPeer list" where
  "decode_CompactPeers [] = Inr []"
| "decode_CompactPeers (a # b # c # d # p1 # p2 # rest) =
     (case decode_CompactPeers rest of
        Inl e \<Rightarrow> Inl e
      | Inr ps \<Rightarrow> Inr (\<lparr>IP = [a, b, c, d], peer_Port = be_word [p1, p2]\<rparr> # ps))"
| "decode_CompactPeers _ = Inl MalformedPeerList"

text \<open>
  Modelled from the spec: an announce response is the response header, the announce
  response header and the peer list that takes up the rest of the datagram.
\<close>

record AnnounceResponse =
  Header :: ResponseHeader
  Body :: AnnounceResponseHeader
  Peers :: "CompactPeer list"

definition encode_AnnounceResponse :: "AnnounceResponse \<Rightarrow> byte list" where
  "encode_AnnounceResponse r =
     encode_ResponseHeader (Header r) @ encode_AnnounceResponseHeader (Body r)
     @ encode_CompactPeers (Peers r)"

definition decode_AnnounceResponse ::
    "byte list \<Rightarrow> codec_error + AnnounceResponse \<times> byte list" where
  "decode_AnnounceResponse bs =
     andThen (decode_ResponseHeader bs) (\<lambda>h r1.
     andThen (decode_AnnounceResponseHeader r1) (\<lambda>a r2.
       (case decode_CompactPeers r2 of
          Inl e \<Rightarrow> Inl e
        | Inr ps \<Rightarrow> Inr (\<lparr>Header = h, Body = a, Peers = ps\<rparr>, []))))"

section \<open>Mapping the torrent's files into memory (misc.go)\<close>

text \<open>
  A path is its sequence of clean segments (none empty, \<^verbatim>\<open>.\<close> or \<^verbatim>\<open>..\<close>): on these
  \<^verbatim>\<open>filepath.Join\<close> is concatenation and \<^verbatim>\<open>filepath.Dir\<close> drops the last segment.
\<close>

type_synonym path = "string list"

definition Dir :: "path \<Rightarrow> path" where
  "Dir p = butlast p"

text \<open>
  The fields of \<^verbatim>\<open>metainfo.MetaInfo\<close> and of its file entries that the function reads
  (the types are libtorgo's). \<^verbatim>\<open>Length\<close> is an \<^verbatim>\<open>int64\<close>; it is only compared and passed on.
\<close>

record FileInfo =
  fi_Length :: int
  fi_Path :: "string list"

record MetaInfo =
  Name :: string
  Files :: "FileInfo list"

text \<open>
  The world outside the program: the directories that exist, the regular files with their
  sizes, and the table of every memory region mapped so far. A region records its file,
  its length, the size its file had when it was mapped, and whether it is still mapped.
\<close>

record region =
  rg_file :: path
  rg_len :: int
  rg_file_size :: int
  rg_mapped :: bool

record world =
  dirs :: "path set"
  sizes :: "path \<rightharpoonup> int"
  regions :: "region list"

text \<open>A \<^verbatim>\<open>gommap.MMap\<close> is a byte slice over a mapped region: the region and its \<^verbatim>\<open>len\<close>.\<close>

record MMap =
  mm_region :: nat
  mm_len :: int

text \<open>
  The calls into the operating system. Whether a call fails, and with which error, is the
  environment's choice (permissions, a full disk, a file in the way of a directory): a
  parameter of the model, free to depend on the state of the world. So is the length of
  the slice that \<^verbatim>\<open>gommap.MapRegion\<close> returns for a requested length.
\<close>

datatype syscall =
  MkdirAll path | OpenFile path | Stat path | Truncate path int | MapRegion path int

record env =
  fails :: "world \<Rightarrow> syscall \<Rightarrow> string option"
  mapped_len :: "path \<Rightarrow> int \<Rightarrow> int"

fun ancestors :: "path \<Rightarrow> path list" where
  "ancestors [] = [[]]"
| "ancestors (x # xs) = [] # map ((#) x) (ancestors xs)"

text \<open>\<^verbatim>\<open>os.MkdirAll\<close>, when it succeeds: the directory and all its parents exist.\<close>

definition mkdirAll :: "path \<Rightarrow> world \<Rightarrow> world" where
  "mkdirAll d w = w\<lparr>dirs := dirs w \<union> set (ancestors d)\<rparr>"

text \<open>\<^verbatim>\<open>os.OpenFile\<close> with \<^verbatim>\<open>O_CREATE|O_RDWR\<close>, when it succeeds: a missing file is created, empty.\<close>

definition openFile :: "path \<Rightarrow> world \<Rightarrow> world" where
  "openFile p w = (case sizes w p of None \<Rightarrow> w\<lparr>sizes := (sizes w)(p \<mapsto> 0)\<rparr> | Some _ \<Rightarrow> w)"

text \<open>\<^verbatim>\<open>fi.Size()\<close> of the open file.\<close>

definition fileSize :: "world \<Rightarrow> path \<Rightarrow> int" where
  "fileSize w p = (case sizes w p of None \<Rightarrow> 0 | Some n \<Rightarrow> n)"

definition truncate :: "path \<Rightarrow> int \<Rightarrow> world \<Rightarrow> world" where
  "truncate p n w = w\<lparr>sizes := (sizes w)(p \<mapsto> n)\<rparr>"

definition mapRegion :: "env \<Rightarrow> path \<Rightarrow> int \<Rightarrow> world \<Rightarrow> MMap \<times> world" where
  "mapRegion e p n w =
     (\<lparr>mm_region = length (regions w), mm_len = mapped_len e p n\<rparr>,
      w\<lparr>regions := regions w @
           [\<lparr>rg_file = p, rg_len = mapped_len e p n, rg_file_size = fileSize w p,
             rg_mapped = True\<rparr>]\<rparr>)"

definition unmap :: "MMap \<Rightarrow> world \<Rightarrow> world" where
  "unmap m w =
     (if mm_region m < length (regions w)
      then w\<lparr>regions := (regions w)[mm_region m := (regions w ! mm_region m)\<lparr>rg_mapped := False\<rparr>]\<rparr>
      else w)"

text \<open>
  Modelled from the spec: \<^verbatim>\<open>MMapSpan.Close\<close> is declared in package \<^verbatim>\<open>mmap_span\<close>,
  outside \<^verbatim>\<open>misc.go\<close>. A span exposes the files' bytes as mapped regions; closing it
  unmaps every mapping it holds, in order.
\<close>

definition MMapSpan_Close :: "MMap list \<Rightarrow> world \<Rightarrow> world" where
  "MMapSpan_Close mms w = fold unmap mms w"

definition fileName :: "MetaInfo \<Rightarrow> path \<Rightarrow> FileInfo \<Rightarrow> path" where
  "fileName metaInfo location miFile = location @ [Name metaInfo] @ fi_Path miFile"

text \<open>
  The closure of lines 111 to 133, run on the open file; the deferred \<^verbatim>\<open>file.Close()\<close>
  leaves the world of this model as it is. The result is the pair \<open>(mms, err)\<close> of the
  enclosing function's named results, or the panic.
\<close>

definition mmapFile ::
    "env \<Rightarrow> path \<Rightarrow> int \<Rightarrow> MMap list \<Rightarrow> world \<Rightarrow> (MMap list \<times> string option) result \<times> world" where
  "mmapFile e name len mms w =
     (case fails e w (Stat name) of
        Some err \<Rightarrow> (Returns (mms, Some err), w)
      | None \<Rightarrow>
          (case (if fileSize w name < len
                 then (case fails e w (Truncate name len) of
                         Some err \<Rightarrow> Inl err
                       | None \<Rightarrow> Inr (truncate name len w))
                 else Inr w) of
             Inl err \<Rightarrow> (Returns (mms, Some err), w)
           | Inr w1 \<Rightarrow>
               (case fails e w1 (MapRegion name len) of
                  Some err \<Rightarrow> (Returns (mms, Some err), w1)
                | None \<Rightarrow>
                    (case mapRegion e name len w1 of
                       (mMap, w2) \<Rightarrow>
                         if mm_len mMap \<noteq> len then (Panic ''mmap has wrong length'', w2)
                         else (Returns (mms @ [mMap], None), w2)))))"

text \<open>One iteration of the loop over \<^verbatim>\<open>metaInfo.Files\<close>.\<close>

definition mmapStep ::
    "env \<Rightarrow> MetaInfo \<Rightarrow> path \<Rightarrow> FileInfo \<Rightarrow> MMap list \<Rightarrow> world
     \<Rightarrow> (MMap list \<times> string option) result \<times> world" where
  "mmapStep e metaInfo location miFile mms w =
     (let name = fileName metaInfo location miFile in
      case fails e w (MkdirAll (Dir name)) of
        Some err \<Rightarrow> (Returns (mms, Some err), w)
      | None \<Rightarrow>
          (let w1 = mkdirAll (Dir name) w in
           case fails e w1 (OpenFile name) of
             Some err \<Rightarrow> (Returns (mms, Some err), w1)
           | None \<Rightarrow> mmapFile e name (fi_Length miFile) mms (openFile name w1)))"

fun mmapLoop ::
    "env \<Rightarrow> MetaInfo \<Rightarrow> path \<Rightarrow> FileInfo list \<Rightarrow> MMap list \<Rightarrow> world
     \<Rightarrow> (MMap list \<times> string option) result \<times> world" where
  "mmapLoop e metaInfo location [] mms w = (Returns (mms, None), w)"
| "mmapLoop e metaInfo location (miFile # rest) mms w =
     (case mmapStep e metaInfo location miFile mms w of
        (Returns (mms', None), w') \<Rightarrow> mmapLoop e metaInfo location rest mms' w'
      | (Returns (mms', Some err), w') \<Rightarrow> (Returns (mms', Some err), w')
      | (Panic s, w') \<Rightarrow> (Panic s, w'))"

text \<open>
  The function with its deferred call: on a return with an error the span is closed and
  the result set to nil (the empty span). A panic leaves \<open>err\<close> nil, so the deferred
  function does nothing then.
\<close>

definition mmapTorrentData ::
    "env \<Rightarrow> MetaInfo \<Rightarrow> path \<Rightarrow> world \<Rightarrow> (MMap list \<times> string option) result \<times> world" where
  "mmapTorrentData e metaInfo location w =
     (case mmapLoop e metaInfo location (Files metaInfo) [] w of
        (Returns (mms, Some err), w') \<Rightarrow> (Returns ([], Some err), MMapSpan_Close mms w')
      | (Returns (mms, None), w') \<Rightarrow> (Returns (mms, None), w')
      | (Panic s, w') \<Rightarrow> (Panic s, w'))"

subsection \<open>Notions used to state the properties of the mapping loop\<close>

text \<open>The size of a file once it has been grown to at least \<open>n\<close> bytes.\<close>

definition grown :: "world \<Rightarrow> path \<Rightarrow> int \<Rightarrow> int" where
  "grown w p n = (if fileSize w p < n then n else fileSize w p)"




definition demo_failing_env :: env where
  "demo_failing_env =
     \<lparr>fails = (\<lambda>w c. if c = Stat [''dl'', ''t'', ''d'', ''b''] then Some ''stat failed'' else None),
      mapped_len = (\<lambda>p n. n)\<rparr>"

definition demo_metaInfo :: MetaInfo where
  "demo_metaInfo =
     \<lparr>Name = ''t'',
      Files = [\<lparr>fi_Length = 5, fi_Path = [''a'']\<rparr>, \<lparr>fi_Length = 3, fi_Path = [''d'', ''b'']\<rparr>]\<rparr>"

definition demo_world :: world where
  "demo_world = \<lparr>dirs = {}, sizes = [[''dl'', ''t'', ''d'', ''b''] \<mapsto> 10], regions = []\<rparr>"

section \<open>Theorems\<close>

subsection \<open>Lemmas on hash sums and chunks\<close>

lemma go_copy_same_length:
  "length dst = length src \<Longrightarrow> go_copy dst src = (src, length dst)"
  by (simp add: go_copy_def)

lemma unat_lastChunk_Begin:
  assumes "0 < pieceLength"
  shows "unat (Begin (lastChunkSpec pieceLength)) = (unat pieceLength - 1) div 16384 * 16384"
proof -
  have ne: "pieceLength \<noteq> 0" using assms by auto
  have m1: "unat (pieceLength - 1) = unat pieceLength - 1"
    using ne by (simp add: unat_minus_one)
  have d: "unat ((pieceLength - 1) div 0x4000) = (unat pieceLength - 1) div 16384"
    by (simp add: unat_div m1)
  have le: "(unat pieceLength - 1) div 16384 * 16384 \<le> unat pieceLength - 1"
    by simp
  have lt: "unat pieceLength - 1 < 2 ^ 32"
  proof -
    have "unat pieceLength < 2 ^ LENGTH(32)" by (rule unsigned_less)
    then show ?thesis by simp
  qed
  have "unat ((pieceLength - 1) div 0x4000) * unat (0x4000 :: 32 word) < 2 ^ LENGTH(32)"
    using le lt by (simp add: d)
  then have "unat ((pieceLength - 1) div 0x4000 * 0x4000) =
        unat ((pieceLength - 1) div 0x4000) * unat (0x4000 :: 32 word)"
    by (rule iffD1 [OF unat_mult_lem])
  also have "\<dots> = (unat pieceLength - 1) div 16384 * 16384"
    by (simp add: d)
  finally show ?thesis
    by (simp add: lastChunkSpec_def chunkSize_def Let_def)
qed

lemma unat_lastChunk_Length:
  assumes "0 < pieceLength"
  shows "unat (Length (lastChunkSpec pieceLength)) =
         unat pieceLength - (unat pieceLength - 1) div 16384 * 16384"
proof -
  have "Begin (lastChunkSpec pieceLength) \<le> pieceLength"
    using unat_lastChunk_Begin [OF assms]
    by (simp add: word_le_nat_alt)
  then have "unat (pieceLength - Begin (lastChunkSpec pieceLength)) =
             unat pieceLength - unat (Begin (lastChunkSpec pieceLength))"
    by (rule unat_sub)
  moreover have "Length (lastChunkSpec pieceLength) = pieceLength - Begin (lastChunkSpec pieceLength)"
    by (simp add: lastChunkSpec_def Let_def)
  ultimately show ?thesis
    using unat_lastChunk_Begin [OF assms] by simp
qed

subsection \<open>Pieces, chunks and hash sums\<close>

text \<open>
  C1. A piece is complete exactly when its set of pending chunk specs is empty and
  \<open>EverHashed\<close> is set; in particular a piece with no pending chunks that was never hashed is
  not complete.
\<close>

theorem Complete_iff:
  "Complete p = (PendingChunkSpecs p = {||} \<and> EverHashed p)
   \<and> \<not> Complete (p\<lparr>PendingChunkSpecs := {||}, EverHashed := False\<rparr>)"
  by (simp add: Complete_def)

text \<open>
  C2. For a piece length above zero, the last chunk begins at the largest multiple of the
  chunk size 16384 that lies strictly below the piece length, and its length is the rest
  of the piece: begin plus length is the piece length, and the length is between 1 and
  16384. A piece of 32768 bytes ends with the chunk (16384, 16384), one of 20000 bytes with
  (16384, 3616).
\<close>

theorem lastChunkSpec_terminal:
  "0 < pieceLength \<Longrightarrow>
     16384 dvd unat (Begin (lastChunkSpec pieceLength))
   \<and> unat (Begin (lastChunkSpec pieceLength)) < unat pieceLength
   \<and> (\<forall>m. 16384 dvd m \<and> m < unat pieceLength \<longrightarrow> m \<le> unat (Begin (lastChunkSpec pieceLength)))
   \<and> Length (lastChunkSpec pieceLength) = pieceLength - Begin (lastChunkSpec pieceLength)
   \<and> unat (Begin (lastChunkSpec pieceLength)) + unat (Length (lastChunkSpec pieceLength)) = unat pieceLength
   \<and> 0 < unat (Length (lastChunkSpec pieceLength))
   \<and> unat (Length (lastChunkSpec pieceLength)) \<le> 16384
   \<and> lastChunkSpec 32768 = \<lparr>Begin = 16384, Length = 16384\<rparr>
   \<and> lastChunkSpec 20000 = \<lparr>Begin = 16384, Length = 3616\<rparr>"
proof -
  assume pos: "0 < pieceLength"
  define n where "n = unat pieceLength"
  define b where "b = (n - 1) div 16384 * 16384"
  have n0: "0 < n" using pos by (simp add: n_def word_less_nat_alt)
  have B: "unat (Begin (lastChunkSpec pieceLength)) = b"
    using unat_lastChunk_Begin [OF pos] by (simp add: b_def n_def)
  have L: "unat (Length (lastChunkSpec pieceLength)) = n - b"
    using unat_lastChunk_Length [OF pos] by (simp add: b_def n_def)
  have dvd: "16384 dvd b" by (simp add: b_def)
  have ble: "b \<le> n - 1" by (simp add: b_def)
  have blt: "b < n" using ble n0 by simp
  have close: "n - 1 < b + 16384"
    using div_mult_mod_eq [of "n - 1" 16384] mod_less_divisor [of 16384 "n - 1"]
    unfolding b_def by linarith
  have largest: "m \<le> b" if "16384 dvd m" "m < n" for m
  proof -
    from that(1) obtain k where k: "m = 16384 * k" by (auto simp: dvd_def)
    have "k \<le> (n - 1) div 16384"
    proof -
      have "16384 * k \<le> n - 1" using that(2) k by simp
      then have "16384 * k div 16384 \<le> (n - 1) div 16384" by (rule div_le_mono)
      then show ?thesis by simp
    qed
    then show ?thesis by (simp add: k b_def)
  qed
  have ex1: "lastChunkSpec 32768 = \<lparr>Begin = 16384, Length = 16384\<rparr>"
    by (simp add: lastChunkSpec_def chunkSize_def Let_def)
  have ex2: "lastChunkSpec 20000 = \<lparr>Begin = 16384, Length = 3616\<rparr>"
    by (simp add: lastChunkSpec_def chunkSize_def Let_def)
  have len: "Length (lastChunkSpec pieceLength) = pieceLength - Begin (lastChunkSpec pieceLength)"
    by (simp add: lastChunkSpec_def Let_def)
  show ?thesis
    unfolding B L n_def [symmetric]
    using dvd blt largest len ex1 ex2 close by auto
qed

theorem lastChunkSpec_terminal_witness:
  "(0 :: Integer) < 49153
   \<and> lastChunkSpec 49153 = \<lparr>Begin = 49152, Length = 1\<rparr>
   \<and> 16384 dvd unat (Begin (lastChunkSpec 49153))
   \<and> unat (Begin (lastChunkSpec 49153)) + unat (Length (lastChunkSpec 49153)) = 49153"
proof -
  have h: "(0 :: Integer) < 49153" by simp
  have v: "lastChunkSpec 49153 = \<lparr>Begin = 49152, Length = 1\<rparr>"
    by (simp add: lastChunkSpec_def chunkSize_def Let_def)
  show ?thesis using h v lastChunkSpec_terminal [OF h] by simp
qed

text \<open>
  C3, as stated, fails: with equal pending counts the comparator does not rank the smaller
  piece index first. Pieces 0 and 1 both have 5 bytes pending, and \<open>Less\<close> of position 0
  (piece 0) against position 1 (piece 1) is false.
\<close>

theorem Less_tie_counterexample:
  "index (Pending \<lparr>Pending = [5, 5], Indices = [0, 1]\<rparr>) 0 = Returns 5
   \<and> index (Pending \<lparr>Pending = [5, 5], Indices = [0, 1]\<rparr>) 1 = Returns 5
   \<and> index (Indices \<lparr>Pending = [5, 5], Indices = [0, 1]\<rparr>) 0 = Returns 0
   \<and> index (Indices \<lparr>Pending = [5, 5], Indices = [0, 1]\<rparr>) 1 = Returns 1
   \<and> (0 :: Integer) < 1
   \<and> Less \<lparr>Pending = [5, 5], Indices = [0, 1]\<rparr> 0 1 = Returns False"
  by (simp add: Less_def index_def)

text \<open>
  C3, amended. The comparator orders piece indices by ascending pending-byte count alone:
  where the four slice reads are in range, \<open>Less i j\<close> holds exactly when the piece at
  position \<open>i\<close> has strictly fewer bytes pending than the piece at position \<open>j\<close>. With
  equal counts it is false in both directions, whatever the piece indices.
\<close>

theorem Less_by_pending_only:
  "index (Indices me) i = Returns a \<Longrightarrow> index (Pending me) (uint a) = Returns pa \<Longrightarrow>
   index (Indices me) j = Returns b \<Longrightarrow> index (Pending me) (uint b) = Returns pb \<Longrightarrow>
     Less me i j = Returns (pa < pb)
   \<and> (pa = pb \<longrightarrow> Less me i j = Returns False \<and> Less me j i = Returns False)"
  by (simp add: Less_def)

theorem Less_by_pending_only_witness:
  "Less \<lparr>Pending = [7, 5, 5], Indices = [2, 0, 1]\<rparr> 0 1 = Returns True
   \<and> Less \<lparr>Pending = [7, 5, 5], Indices = [2, 0, 1]\<rparr> 1 0 = Returns False
   \<and> Less \<lparr>Pending = [7, 5, 5], Indices = [2, 0, 1]\<rparr> 0 2 = Returns False
   \<and> Less \<lparr>Pending = [7, 5, 5], Indices = [2, 0, 1]\<rparr> 2 0 = Returns False"
proof -
  let ?me = "\<lparr>Pending = [7, 5, 5 :: Integer], Indices = [2, 0, 1 :: Integer]\<rparr>"
  have i0: "index (Indices ?me) 0 = Returns 2" by (simp add: index_def)
  have i1: "index (Indices ?me) 1 = Returns 0" by (simp add: index_def)
  have i2: "index (Indices ?me) 2 = Returns 1" by (simp add: index_def)
  have p0: "index (Pending ?me) (uint (0 :: Integer)) = Returns 7" by (simp add: index_def)
  have p1: "index (Pending ?me) (uint (1 :: Integer)) = Returns 5" by (simp add: index_def)
  have p2: "index (Pending ?me) (uint (2 :: Integer)) = Returns 5" by (simp add: index_def)
  show ?thesis
    using Less_by_pending_only [OF i0 p2 i1 p0] Less_by_pending_only [OF i1 p0 i0 p2]
      Less_by_pending_only [OF i0 p2 i2 p1]
    by simp
qed

text \<open>
  C4, as stated, fails: on inputs whose length is not 20 both functions abort with a panic.
\<close>

theorem hash_sum_mismatch_counterexample:
  "length ([] :: byte list) \<noteq> 20 \<and> aborts (BytesInfoHash [])
   \<and> length ([7] :: byte list) \<noteq> 20 \<and> aborts (copyHashSum (replicate 20 0) [7])"
  by (simp add: BytesInfoHash_def copyHashSum_def)

text \<open>
  C4, amended. \<open>BytesInfoHash\<close> returns its 20 input bytes as the info hash and panics with
  ``bad infohash bytes'' on every input of another length. \<open>copyHashSum\<close> copies \<open>src\<close>
  over \<open>dst\<close> when the two have the same length (20 or not) and panics with ``hash sum
  sizes differ'' otherwise.
\<close>

theorem hash_sum_mismatch_panics:
  "BytesInfoHash b = (if length b = 20 then Returns b else Panic ''bad infohash bytes'')
   \<and> copyHashSum dst src =
       (if length dst = length src then Returns src else Panic ''hash sum sizes differ'')"
  by (simp add: BytesInfoHash_def copyHashSum_def go_copy_same_length Let_def)

theorem hash_sum_mismatch_panics_witness:
  "BytesInfoHash [1, 2, 3] = Panic ''bad infohash bytes''
   \<and> copyHashSum [0, 0] [1, 2, 3] = Panic ''hash sum sizes differ''
   \<and> copyHashSum [0, 0, 0] [1, 2, 3] = Returns [1, 2, 3]"
  using hash_sum_mismatch_panics [of "[1, 2, 3]" "[0, 0]" "[1, 2, 3]"]
    hash_sum_mismatch_panics [of "[1, 2, 3]" "[0, 0, 0]" "[1, 2, 3]"]
  by simp

subsection \<open>Lemmas on the codec\<close>

lemma length_be_bytes: "length (be_bytes n w) = n"
  by (induction n arbitrary: w) simp_all

lemma be_word_snoc: "be_word (xs @ [b]) = push_bit 8 (be_word xs) OR ucast b"
  by (simp add: be_word_def)

lemma be_word_be_bytes: "(be_word (be_bytes n w) :: 'a::len word) = take_bit (8 * n) w"
proof (induction n arbitrary: w)
  case 0
  then show ?case by (simp add: be_word_def)
next
  case (Suc n)
  show ?case
    unfolding be_bytes.simps be_word_snoc Suc.IH
    by (rule bit_eqI) (auto simp add: bit_simps)
qed

lemma be_word_inverse: "LENGTH('a) \<le> 8 * n \<Longrightarrow> (be_word (be_bytes n w) :: 'a::len word) = w"
  by (simp add: be_word_be_bytes take_bit_word_eq_self)

lemma read_bytes_append:
  "length xs = n \<Longrightarrow> read_bytes n (xs @ rest) = Inr (xs, rest)"
  by (simp add: read_bytes_def)

lemma read_word_append:
  "LENGTH('a) \<le> 8 * n \<Longrightarrow>
   read_word n (be_bytes n (w :: 'a::len word) @ rest) = Inr (w, rest)"
  by (simp add: read_word_def read_bytes_append length_be_bytes be_word_inverse)

lemma andThen_Inr: "andThen (Inr (x, rest)) f = f x rest"
  by (simp add: andThen_def)

lemma andThen_Inl: "andThen (Inl e) f = Inl e"
  by (simp add: andThen_def)

lemma read_bytes_short: "length bs < n \<Longrightarrow> read_bytes n bs = Inl Truncated"
  by (simp add: read_bytes_def)

lemma read_bytes_enough: "n \<le> length bs \<Longrightarrow> read_bytes n bs = Inr (take n bs, drop n bs)"
  by (simp add: read_bytes_def)

lemma read_word_short: "length bs < n \<Longrightarrow> read_word n bs = Inl Truncated"
  by (simp add: read_word_def read_bytes_def)

lemma read_word_enough:
  "n \<le> length bs \<Longrightarrow> read_word n bs = Inr (be_word (take n bs), drop n bs)"
  by (simp add: read_word_def read_bytes_def)

lemma decode_RequestHeader_encode:
  "decode_RequestHeader (encode_RequestHeader h @ rest) = Inr (h, rest)"
  by (simp add: decode_RequestHeader_def encode_RequestHeader_def read_word_append andThen_Inr)

lemma decode_ResponseHeader_encode:
  "decode_ResponseHeader (encode_ResponseHeader h @ rest) = Inr (h, rest)"
  by (simp add: decode_ResponseHeader_def encode_ResponseHeader_def read_word_append andThen_Inr)

lemma decode_ConnectionResponse_encode:
  "decode_ConnectionResponse (encode_ConnectionResponse c @ rest) = Inr (c, rest)"
  by (simp add: decode_ConnectionResponse_def encode_ConnectionResponse_def read_word_append andThen_Inr)

lemma decode_AnnounceResponseHeader_encode:
  "decode_AnnounceResponseHeader (encode_AnnounceResponseHeader a @ rest) = Inr (a, rest)"
  by (simp add: decode_AnnounceResponseHeader_def encode_AnnounceResponseHeader_def
      read_word_append andThen_Inr)

lemma decode_AnnounceRequest_encode:
  "wf_AnnounceRequest a \<Longrightarrow>
   decode_AnnounceRequest (encode_AnnounceRequest a @ rest) = Inr (a, rest)"
  by (simp add: decode_AnnounceRequest_def encode_AnnounceRequest_def wf_AnnounceRequest_def
      read_word_append read_bytes_append andThen_Inr)

lemma length4E:
  assumes "length xs = 4"
  obtains a b c d where "xs = [a, b, c, d]"
  using assms by (auto simp: length_Suc_conv eval_nat_numeral)

lemma be_bytes_2: "be_bytes 2 w = [ucast (drop_bit 8 w), ucast w]"
  by (simp add: eval_nat_numeral)

lemma be_word_2: "(be_word [ucast (drop_bit 8 w), ucast w] :: 16 word) = w"
  using be_word_inverse [of 2 w] by (simp add: be_bytes_2)

lemma decode_CompactPeers_encode:
  "list_all wf_CompactPeer ps \<Longrightarrow> decode_CompactPeers (encode_CompactPeers ps) = Inr ps"
proof (induction ps)
  case Nil
  then show ?case by simp
next
  case (Cons p ps)
  then have "length (IP p) = 4" and ps: "decode_CompactPeers (encode_CompactPeers ps) = Inr ps"
    by (simp_all add: wf_CompactPeer_def)
  then obtain a b c d where ip: "IP p = [a, b, c, d]" by (auto elim: length4E)
  have "p = \<lparr>IP = [a, b, c, d], peer_Port = peer_Port p\<rparr>"
    using ip by (cases p) simp
  then show ?case
    by (simp add: encode_CompactPeer_def ip be_bytes_2 be_word_2 ps)
qed

lemma decode_ResponseHeader_short:
  "length bs < 8 \<Longrightarrow> decode_ResponseHeader bs = Inl Truncated"
  by (auto simp add: decode_ResponseHeader_def read_word_def read_bytes_def andThen_def)

lemma decode_RequestHeader_short:
  "length bs < 16 \<Longrightarrow> decode_RequestHeader bs = Inl Truncated"
  by (auto simp add: decode_RequestHeader_def read_word_def read_bytes_def andThen_def)

lemma decode_ConnectionResponse_short:
  "length bs < 8 \<Longrightarrow> decode_ConnectionResponse bs = Inl Truncated"
  by (auto simp add: decode_ConnectionResponse_def read_word_def read_bytes_def andThen_def)

lemma decode_AnnounceResponseHeader_short:
  "length bs < 12 \<Longrightarrow> decode_AnnounceResponseHeader bs = Inl Truncated"
  by (auto simp add: decode_AnnounceResponseHeader_def read_word_def read_bytes_def andThen_def)

lemma decode_AnnounceRequest_short:
  "length bs < 82 \<Longrightarrow> decode_AnnounceRequest bs = Inl Truncated"
  by (auto simp add: decode_AnnounceRequest_def read_word_def read_bytes_def andThen_def)

lemma decode_ResponseHeader_rest:
  "decode_ResponseHeader bs = Inr (h, rest) \<Longrightarrow> rest = drop 8 bs \<and> 8 \<le> length bs"
  by (auto simp add: decode_ResponseHeader_def read_word_def read_bytes_def andThen_def
      split: if_splits)

lemma decode_RequestHeader_rest:
  "decode_RequestHeader bs = Inr (h, rest) \<Longrightarrow> rest = drop 16 bs \<and> 16 \<le> length bs"
  by (auto simp add: decode_RequestHeader_def read_word_def read_bytes_def andThen_def
      split: if_splits)

lemma decode_ConnectResponse_short:
  "length bs < 16 \<Longrightarrow> decode_ConnectResponse bs = Inl Truncated"
proof (cases "decode_ResponseHeader bs")
  case (Inl e)
  assume "length bs < 16"
  have "e = Truncated" using Inl
    by (auto simp add: decode_ResponseHeader_def read_word_def read_bytes_def andThen_def
        split: if_splits)
  then show ?thesis using Inl by (simp add: decode_ConnectResponse_def andThen_def)
next
  case (Inr x)
  assume short: "length bs < 16"
  obtain h rest where x: "x = (h, rest)" by (cases x)
  have "length rest < 8"
    using decode_ResponseHeader_rest [of bs h rest] Inr x short by simp
  then show ?thesis
    using Inr x by (simp add: decode_ConnectResponse_def andThen_def decode_ConnectionResponse_short)
qed

lemma decode_AnnounceRequestPacket_short:
  "length bs < 98 \<Longrightarrow> decode_AnnounceRequestPacket bs = Inl Truncated"
proof (cases "decode_RequestHeader bs")
  case (Inl e)
  have "e = Truncated" using Inl
    by (auto simp add: decode_RequestHeader_def read_word_def read_bytes_def andThen_def
        split: if_splits)
  then show ?thesis using Inl by (simp add: decode_AnnounceRequestPacket_def andThen_def)
next
  case (Inr x)
  assume short: "length bs < 98"
  obtain h rest where x: "x = (h, rest)" by (cases x)
  have "length rest < 82"
    using decode_RequestHeader_rest [of bs h rest] Inr x short by simp
  then show ?thesis
    using Inr x
    by (simp add: decode_AnnounceRequestPacket_def andThen_def decode_AnnounceRequest_short)
qed

lemma decode_AnnounceResponse_short:
  "length bs < 20 \<Longrightarrow> decode_AnnounceResponse bs = Inl Truncated"
proof (cases "decode_ResponseHeader bs")
  case (Inl e)
  have "e = Truncated" using Inl
    by (auto simp add: decode_ResponseHeader_def read_word_def read_bytes_def andThen_def
        split: if_splits)
  then show ?thesis using Inl by (simp add: decode_AnnounceResponse_def andThen_def)
next
  case (Inr x)
  assume short: "length bs < 20"
  obtain h rest where x: "x = (h, rest)" by (cases x)
  have "length rest < 12"
    using decode_ResponseHeader_rest [of bs h rest] Inr x short by simp
  then show ?thesis
    using Inr x
    by (simp add: decode_AnnounceResponse_def andThen_def decode_AnnounceResponseHeader_short)
qed

text \<open>
  C5. Decoding a buffer that holds fewer bytes than the fixed width of the structure fails
  with \<open>Truncated\<close>: it returns no value, so nothing is zero-filled, and the decoders are
  total, so nothing panics. The widths are 8 bytes for the response header, 16 for the
  request header and the connect response, 98 for the announce request, 12 for the
  announce response header after the response header, 20 for an announce response.
\<close>

theorem decode_short_is_Truncated:
  "(length bs < 8 \<longrightarrow> decode_ResponseHeader bs = Inl Truncated)
   \<and> (length bs < 16 \<longrightarrow> decode_RequestHeader bs = Inl Truncated)
   \<and> (length bs < 8 \<longrightarrow> decode_ConnectionResponse bs = Inl Truncated)
   \<and> (length bs < 16 \<longrightarrow> decode_ConnectResponse bs = Inl Truncated)
   \<and> (length bs < 82 \<longrightarrow> decode_AnnounceRequest bs = Inl Truncated)
   \<and> (length bs < 98 \<longrightarrow> decode_AnnounceRequestPacket bs = Inl Truncated)
   \<and> (length bs < 12 \<longrightarrow> decode_AnnounceResponseHeader bs = Inl Truncated)
   \<and> (length bs < 20 \<longrightarrow> decode_AnnounceResponse bs = Inl Truncated)"
  using decode_ResponseHeader_short decode_RequestHeader_short decode_ConnectionResponse_short
    decode_ConnectResponse_short decode_AnnounceRequest_short decode_AnnounceRequestPacket_short
    decode_AnnounceResponseHeader_short decode_AnnounceResponse_short
  by blast

theorem decode_short_is_Truncated_witness:
  "decode_ResponseHeader [0, 0, 0, 1] = Inl Truncated
   \<and> decode_ResponseHeader [0, 0, 1] = Inl Truncated
   \<and> decode_RequestHeader [0, 0, 1] = Inl Truncated
   \<and> decode_AnnounceResponse [0, 0, 0, 1] = Inl Truncated"
  using decode_short_is_Truncated [of "[0, 0, 0, 1]"] decode_short_is_Truncated [of "[0, 0, 1]"]
  by simp



text \<open>
  C7. Decoding the encoding of a wire structure gives the structure back and consumes all
  the bytes: for the connect request, the connect response, the announce request, the
  response header, the announce response header, and an announce response with no peer,
  one peer or any list of peers.
\<close>

theorem decode_encode_roundtrip:
  "wf_AnnounceRequest a \<Longrightarrow> list_all wf_CompactPeer (Peers r) \<Longrightarrow> wf_CompactPeer p \<Longrightarrow>
     decode_RequestHeader (encode_RequestHeader q) = Inr (q, [])
   \<and> decode_RequestHeader (encode_RequestHeader (ConnectRequest tid)) = Inr (ConnectRequest tid, [])
   \<and> decode_ConnectResponse (encode_ConnectResponse cr) = Inr (cr, [])
   \<and> decode_AnnounceRequestPacket (encode_AnnounceRequestPacket (q, a)) = Inr ((q, a), [])
   \<and> decode_ResponseHeader (encode_ResponseHeader h) = Inr (h, [])
   \<and> decode_AnnounceResponseHeader (encode_AnnounceResponseHeader ah) = Inr (ah, [])
   \<and> decode_AnnounceResponse (encode_AnnounceResponse r) = Inr (r, [])
   \<and> decode_AnnounceResponse (encode_AnnounceResponse (r\<lparr>Peers := []\<rparr>)) = Inr (r\<lparr>Peers := []\<rparr>, [])
   \<and> decode_AnnounceResponse (encode_AnnounceResponse (r\<lparr>Peers := [p]\<rparr>)) = Inr (r\<lparr>Peers := [p]\<rparr>, [])"
proof -
  assume wfa: "wf_AnnounceRequest a" and wfp: "list_all wf_CompactPeer (Peers r)"
    and wf1: "wf_CompactPeer p"
  have rq: "decode_RequestHeader (encode_RequestHeader x) = Inr (x, [])" for x
    using decode_RequestHeader_encode [of x "[]"] by simp
  have cr: "decode_ConnectResponse (encode_ConnectResponse cr) = Inr (cr, [])"
    using decode_ConnectionResponse_encode [of "snd cr" "[]"]
    by (simp add: decode_ConnectResponse_def encode_ConnectResponse_def
        decode_ResponseHeader_encode andThen_Inr)
  have ap: "decode_AnnounceRequestPacket (encode_AnnounceRequestPacket (q, a)) = Inr ((q, a), [])"
    using decode_AnnounceRequest_encode [OF wfa, of "[]"]
    by (simp add: decode_AnnounceRequestPacket_def encode_AnnounceRequestPacket_def
        decode_RequestHeader_encode andThen_Inr)
  have rh: "decode_ResponseHeader (encode_ResponseHeader h) = Inr (h, [])"
    using decode_ResponseHeader_encode [of h "[]"] by simp
  have ah: "decode_AnnounceResponseHeader (encode_AnnounceResponseHeader ah) = Inr (ah, [])"
    using decode_AnnounceResponseHeader_encode [of ah "[]"] by simp
  have ar: "decode_AnnounceResponse (encode_AnnounceResponse x) = Inr (x, [])"
    if "list_all wf_CompactPeer (Peers x)" for x
    using decode_CompactPeers_encode [OF that]
    by (simp add: decode_AnnounceResponse_def encode_AnnounceResponse_def
        decode_ResponseHeader_encode decode_AnnounceResponseHeader_encode andThen_Inr)
  show ?thesis
    using rq cr ap rh ah ar [OF wfp] ar [of "r\<lparr>Peers := []\<rparr>"] ar [of "r\<lparr>Peers := [p]\<rparr>"] wf1
    by simp
qed

theorem decode_encode_roundtrip_witness:
  "encode_RequestHeader (ConnectRequest 7) =
     [0x00, 0x00, 0x04, 0x17, 0x27, 0x10, 0x19, 0x80, 0, 0, 0, 0, 0, 0, 0, 7]
   \<and> decode_RequestHeader (encode_RequestHeader (ConnectRequest 7)) = Inr (ConnectRequest 7, [])
   \<and> decode_AnnounceRequestPacket
        (encode_AnnounceRequestPacket
           (\<lparr>ConnectionId = 42, Action = 1, TransactionId = 7\<rparr>,
            \<lparr>InfoHash = replicate 20 0xa3, PeerId = replicate 20 0x2d, Downloaded = 0,
              Left = 20000, Uploaded = 0, Event = 2, IPAddress = 0, Key = 9,
              NumWant = - 1, Port = 6881\<rparr>))
       = Inr ((\<lparr>ConnectionId = 42, Action = 1, TransactionId = 7\<rparr>,
               \<lparr>InfoHash = replicate 20 0xa3, PeerId = replicate 20 0x2d, Downloaded = 0,
                 Left = 20000, Uploaded = 0, Event = 2, IPAddress = 0, Key = 9,
                 NumWant = - 1, Port = 6881\<rparr>), [])
   \<and> decode_AnnounceResponse
        (encode_AnnounceResponse
           \<lparr>Header = \<lparr>rsp_Action = 1, rsp_TransactionId = 7\<rparr>,
            Body = \<lparr>Interval = 1800, Leechers = 2, Seeders = 5\<rparr>,
            Peers = [\<lparr>IP = [127, 0, 0, 1], peer_Port = 2\<rparr>,
                     \<lparr>IP = [255, 0, 0, 3], peer_Port = 4\<rparr>,
                     \<lparr>IP = [10, 0, 0, 7], peer_Port = 6881\<rparr>]\<rparr>)
       = Inr (\<lparr>Header = \<lparr>rsp_Action = 1, rsp_TransactionId = 7\<rparr>,
               Body = \<lparr>Interval = 1800, Leechers = 2, Seeders = 5\<rparr>,
               Peers = [\<lparr>IP = [127, 0, 0, 1], peer_Port = 2\<rparr>,
                        \<lparr>IP = [255, 0, 0, 3], peer_Port = 4\<rparr>,
                        \<lparr>IP = [10, 0, 0, 7], peer_Port = 6881\<rparr>]\<rparr>, [])"
proof -
  let ?a = "\<lparr>InfoHash = replicate 20 0xa3, PeerId = replicate 20 0x2d, Downloaded = 0,
              Left = 20000, Uploaded = 0, Event = 2, IPAddress = 0, Key = 9,
              NumWant = - 1, Port = 6881\<rparr>"
  let ?r = "\<lparr>Header = \<lparr>rsp_Action = 1, rsp_TransactionId = 7\<rparr>,
            Body = \<lparr>Interval = 1800, Leechers = 2, Seeders = 5\<rparr>,
            Peers = [\<lparr>IP = [127, 0, 0, 1], peer_Port = 2\<rparr>,
                     \<lparr>IP = [255, 0, 0, 3], peer_Port = 4\<rparr>,
                     \<lparr>IP = [10, 0, 0, 7], peer_Port = 6881\<rparr>]\<rparr>"
  have wfa: "wf_AnnounceRequest ?a" by (simp add: wf_AnnounceRequest_def)
  have wfp: "list_all wf_CompactPeer (Peers ?r)" by (simp add: wf_CompactPeer_def)
  have wf1: "wf_CompactPeer \<lparr>IP = [10, 0, 0, 7], peer_Port = 6881\<rparr>"
    by (simp add: wf_CompactPeer_def)
  have bytes: "encode_RequestHeader (ConnectRequest 7) =
     [0x00, 0x00, 0x04, 0x17, 0x27, 0x10, 0x19, 0x80, 0, 0, 0, 0, 0, 0, 0, 7]"
    by code_simp
  show ?thesis
    using bytes
      decode_encode_roundtrip [OF wfa wfp wf1,
        of "\<lparr>ConnectionId = 42, Action = 1, TransactionId = 7\<rparr>" 7]
    by simp
qed

subsection \<open>Lemmas on the mapping loop\<close>


lemma mmapFile_err:
  "mmapFile e p n mms w = (Returns (mms', Some err), w') \<Longrightarrow>
   mms' = mms \<and> regions w' = regions w"
  by (auto simp add: mmapFile_def mapRegion_def truncate_def
      split: option.splits if_splits sum.splits)

lemma mmapFile_ok:
  "mmapFile e p n mms w = (Returns (mms', None), w') \<Longrightarrow>
     dirs w' = dirs w
   \<and> sizes w' = (if fileSize w p < n then (sizes w)(p \<mapsto> n) else sizes w)
   \<and> regions w' = regions w @
        [\<lparr>rg_file = p, rg_len = n,
          rg_file_size = (if fileSize w p < n then n else fileSize w p), rg_mapped = True\<rparr>]
   \<and> mms' = mms @ [\<lparr>mm_region = length (regions w), mm_len = n\<rparr>]"
  by (auto simp add: mmapFile_def mapRegion_def truncate_def fileSize_def
      split: option.splits if_splits sum.splits)

lemma mmapStep_err:
  "mmapStep e mi loc f mms w = (Returns (mms', Some err), w') \<Longrightarrow>
   mms' = mms \<and> regions w' = regions w"
  by (auto simp add: mmapStep_def Let_def mkdirAll_def openFile_def
      split: option.splits dest!: mmapFile_err)

lemma mmapStep_ok:
  assumes "mmapStep e mi loc f mms w = (Returns (mms', None), w')"
  shows "dirs w' = dirs w \<union> set (ancestors (Dir (fileName mi loc f)))"
    and "sizes w' = (sizes w)(fileName mi loc f \<mapsto> grown w (fileName mi loc f) (fi_Length f))"
    and "regions w' = regions w @
        [\<lparr>rg_file = fileName mi loc f, rg_len = fi_Length f,
          rg_file_size = grown w (fileName mi loc f) (fi_Length f), rg_mapped = True\<rparr>]"
    and "mms' = mms @ [\<lparr>mm_region = length (regions w), mm_len = fi_Length f\<rparr>]"
proof -
  let ?p = "fileName mi loc f"
  let ?w1 = "openFile ?p (mkdirAll (Dir ?p) w)"
  from assms have mf: "mmapFile e ?p (fi_Length f) mms ?w1 = (Returns (mms', None), w')"
    by (auto simp add: mmapStep_def Let_def split: option.splits)
  have d: "dirs ?w1 = dirs w \<union> set (ancestors (Dir ?p))"
    by (simp add: openFile_def mkdirAll_def split: option.splits)
  have r: "regions ?w1 = regions w"
    by (simp add: openFile_def mkdirAll_def split: option.splits)
  have fs: "fileSize ?w1 ?p = fileSize w ?p"
    by (simp add: openFile_def mkdirAll_def fileSize_def split: option.splits)
  have s: "sizes ?w1 = (sizes w)(?p \<mapsto> fileSize w ?p)"
    by (auto simp add: openFile_def mkdirAll_def fileSize_def split: option.splits)
  note ok = mmapFile_ok [OF mf]
  show "dirs w' = dirs w \<union> set (ancestors (Dir ?p))" using ok d by simp
  show "sizes w' = (sizes w)(?p \<mapsto> grown w ?p (fi_Length f))"
    using ok s fs by (auto simp add: grown_def)
  show "regions w' = regions w @
        [\<lparr>rg_file = ?p, rg_len = fi_Length f,
          rg_file_size = grown w ?p (fi_Length f), rg_mapped = True\<rparr>]"
    using ok r fs by (simp add: grown_def)
  show "mms' = mms @ [\<lparr>mm_region = length (regions w), mm_len = fi_Length f\<rparr>]"
    using ok r by simp
qed










lemma mmapLoop_regions:
  "mmapLoop e mi loc fs mms w = (Returns (mms', err), w') \<Longrightarrow>
   (\<exists>rs. regions w' = regions w @ rs)
   \<and> map mm_region mms' = map mm_region mms @ [length (regions w) ..< length (regions w')]"
proof (induction fs arbitrary: mms w)
  case Nil
  then show ?case by simp
next
  case (Cons f fs)
  obtain r w1 where st: "mmapStep e mi loc f mms w = (r, w1)"
    by (cases "mmapStep e mi loc f mms w")
  show ?case
  proof (cases r)
    case (Panic s)
    with Cons.prems st show ?thesis by simp
  next
    case (Returns x)
    obtain mms1 err1 where x: "x = (mms1, err1)" by (cases x)
    show ?thesis
    proof (cases err1)
      case None
      with st Returns x have ok: "mmapStep e mi loc f mms w = (Returns (mms1, None), w1)"
        by simp
      with Cons.prems have tl: "mmapLoop e mi loc fs mms1 w1 = (Returns (mms', err), w')"
        by simp
      from Cons.IH [OF tl] obtain rs where rs: "regions w' = regions w1 @ rs"
        and ms: "map mm_region mms' =
                 map mm_region mms1 @ [length (regions w1) ..< length (regions w')]"
        by blast
      have l1: "length (regions w1) = Suc (length (regions w))"
        using mmapStep_ok(3) [OF ok] by simp
      have "length (regions w) < length (regions w')" using rs l1 by simp
      then have "[length (regions w) ..< length (regions w')] =
                 length (regions w) # [length (regions w1) ..< length (regions w')]"
        using l1 by (simp add: upt_conv_Cons)
      then have "map mm_region mms' =
                 map mm_region mms @ [length (regions w) ..< length (regions w')]"
        using ms mmapStep_ok(4) [OF ok] by simp
      moreover have "\<exists>rs. regions w' = regions w @ rs"
        using rs mmapStep_ok(3) [OF ok] by simp
      ultimately show ?thesis by blast
    next
      case (Some a)
      with st Returns x have er: "mmapStep e mi loc f mms w = (Returns (mms1, Some a), w1)"
        by simp
      with Cons.prems have "mms' = mms1" "w' = w1" by simp_all
      then show ?thesis using mmapStep_err [OF er] by simp
    qed
  qed
qed

lemma length_regions_unmap: "length (regions (unmap m w)) = length (regions w)"
  by (simp add: unmap_def)

lemma length_regions_Close: "length (regions (fold unmap ms w)) = length (regions w)"
  by (induction ms arbitrary: w) (simp_all add: length_regions_unmap)

lemma nth_regions_unmap:
  "i < length (regions w) \<Longrightarrow>
   regions (unmap m w) ! i =
     (if i = mm_region m then (regions w ! i)\<lparr>rg_mapped := False\<rparr> else regions w ! i)"
  by (simp add: unmap_def)

lemma nth_regions_Close:
  "i < length (regions w) \<Longrightarrow>
   regions (fold unmap ms w) ! i =
     (if i \<in> mm_region ` set ms then (regions w ! i)\<lparr>rg_mapped := False\<rparr> else regions w ! i)"
proof (induction ms arbitrary: w)
  case Nil
  then show ?case by simp
next
  case (Cons m ms)
  have "i < length (regions (unmap m w))" using Cons.prems by (simp add: length_regions_unmap)
  from Cons.IH [OF this] show ?case
    using Cons.prems by (auto simp add: nth_regions_unmap)
qed

lemmas run_defs = mmapTorrentData_def mmapStep_def mmapFile_def mapRegion_def
  truncate_def openFile_def mkdirAll_def fileSize_def fileName_def Dir_def MMapSpan_Close_def
  unmap_def Let_def




text \<open>
  C10. When \<open>mmapTorrentData\<close> returns an error, the span it returns is nil (empty), the
  regions that were mapped before the call are as they were, and every region mapped
  during the call has been unmapped.
\<close>

theorem mmapTorrentData_error_closes_span:
  "mmapTorrentData e mi loc w = (Returns (mms, Some err), w') \<Longrightarrow>
     mms = []
   \<and> length (regions w) \<le> length (regions w')
   \<and> take (length (regions w)) (regions w') = regions w
   \<and> (\<forall>i. length (regions w) \<le> i \<and> i < length (regions w') \<longrightarrow> \<not> rg_mapped (regions w' ! i))"
proof -
  assume run: "mmapTorrentData e mi loc w = (Returns (mms, Some err), w')"
  obtain r w0 where l: "mmapLoop e mi loc (Files mi) [] w = (r, w0)"
    by (cases "mmapLoop e mi loc (Files mi) [] w")
  from run l obtain mms0 where loop: "mmapLoop e mi loc (Files mi) [] w = (Returns (mms0, Some err), w0)"
    and nil: "mms = []" and w': "w' = fold unmap mms0 w0"
    by (cases r) (auto simp add: mmapTorrentData_def MMapSpan_Close_def split: option.splits prod.splits)
  from mmapLoop_regions [OF loop] obtain rs where rs: "regions w0 = regions w @ rs"
    and ms: "map mm_region mms0 = [length (regions w) ..< length (regions w0)]"
    by auto
  have img: "mm_region ` set mms0 = {length (regions w) ..< length (regions w0)}"
    using ms by (metis set_map set_upt)
  have len: "length (regions w') = length (regions w0)"
    by (simp add: w' length_regions_Close)
  have nth: "regions w' ! i =
      (if length (regions w) \<le> i then (regions w0 ! i)\<lparr>rg_mapped := False\<rparr> else regions w0 ! i)"
    if "i < length (regions w0)" for i
    using nth_regions_Close [OF that, of mms0] that by (simp add: w' img)
  have le: "length (regions w) \<le> length (regions w')" using len rs by simp
  have pre: "take (length (regions w)) (regions w') = regions w"
  proof (rule nth_equalityI)
    show "length (take (length (regions w)) (regions w')) = length (regions w)"
      using le by simp
  next
    fix i assume "i < length (take (length (regions w)) (regions w'))"
    then have i: "i < length (regions w)" by simp
    then have "i < length (regions w0)" using rs by simp
    from nth [OF this] i have "regions w' ! i = regions w0 ! i" by simp
    then show "take (length (regions w)) (regions w') ! i = regions w ! i"
      using i rs by (simp add: nth_append)
  qed
  have closed: "\<forall>i. length (regions w) \<le> i \<and> i < length (regions w') \<longrightarrow> \<not> rg_mapped (regions w' ! i)"
    using nth len by simp
  show ?thesis using nil le pre closed by blast
qed

lemma demo_failing_run:
  "fst (mmapTorrentData demo_failing_env demo_metaInfo [''dl''] demo_world) =
     Returns ([], Some ''stat failed'')"
  by (simp add: run_defs demo_failing_env_def demo_metaInfo_def demo_world_def)

theorem mmapTorrentData_error_closes_span_witness:
  "fst (mmapTorrentData demo_failing_env demo_metaInfo [''dl''] demo_world) =
     Returns ([], Some ''stat failed'')
   \<and> regions (snd (mmapTorrentData demo_failing_env demo_metaInfo [''dl''] demo_world)) =
       [\<lparr>rg_file = [''dl'', ''t'', ''a''], rg_len = 5, rg_file_size = 5, rg_mapped = False\<rparr>]
   \<and> \<not> rg_mapped (regions (snd (mmapTorrentData demo_failing_env demo_metaInfo [''dl''] demo_world)) ! 0)"
proof -
  let ?w' = "snd (mmapTorrentData demo_failing_env demo_metaInfo [''dl''] demo_world)"
  have run: "mmapTorrentData demo_failing_env demo_metaInfo [''dl''] demo_world =
     (Returns ([], Some ''stat failed''), ?w')"
    using demo_failing_run by (simp add: prod_eq_iff)
  have regs: "regions ?w' =
       [\<lparr>rg_file = [''dl'', ''t'', ''a''], rg_len = 5, rg_file_size = 5, rg_mapped = False\<rparr>]"
    by (simp add: run_defs demo_failing_env_def demo_metaInfo_def demo_world_def)
  have r0: "regions demo_world = []" by (simp add: demo_world_def)
  show ?thesis
    using mmapTorrentData_error_closes_span [OF run] regs r0 demo_failing_run by simp
qed

end
